theory Spec2Isabelle
  imports Complex_Main
begin

section \<open>Data model\<close>

text \<open>
  \<open>HVACMode\<close> is Home Assistant's enumeration of climate modes
  (\<open>homeassistant.components.climate.const\<close>); the integration imports it. Its seven
  members and their string values are listed here. Python floats are modelled as
  \<open>real\<close> (finite values, exact arithmetic); instants and durations are integers
  (microseconds, the resolution of \<open>datetime\<close> and \<open>timedelta\<close>).
\<close>

datatype HVACMode = OFF | HEAT | COOL | HEAT_COOL | AUTO | DRY | FAN_ONLY

fun HVACMode_value :: "HVACMode \<Rightarrow> string" where
  "HVACMode_value OFF = ''off''"
| "HVACMode_value HEAT = ''heat''"
| "HVACMode_value COOL = ''cool''"
| "HVACMode_value HEAT_COOL = ''heat_cool''"
| "HVACMode_value AUTO = ''auto''"
| "HVACMode_value DRY = ''dry''"
| "HVACMode_value FAN_ONLY = ''fan_only''"

definition all_HVACModes :: "HVACMode list" where
  "all_HVACModes = [OFF, HEAT, COOL, HEAT_COOL, AUTO, DRY, FAN_ONLY]"

text \<open>\<open>HVACMode(s)\<close>: the member whose value is \<open>s\<close>, if there is one.\<close>

definition HVACMode_of_value :: "string \<Rightarrow> HVACMode option" where
  "HVACMode_of_value s = find (\<lambda>m. HVACMode_value m = s) all_HVACModes"

text \<open>The constants of \<open>__init__.py\<close>.\<close>

definition TEMP_CONTROLLED_MODES :: "HVACMode set" where
  "TEMP_CONTROLLED_MODES = {HEAT, COOL}"

definition MODE_PRIORITY :: "HVACMode list" where
  "MODE_PRIORITY = [COOL, HEAT, DRY, FAN_ONLY]"

text \<open>
  The fields of \<open>DuctedHVACZone\<close> that the control logic reads or writes. The first
  seven are fixed at construction; the rest is the zone's mutable state.
\<close>

record zone =
  attr_name :: string
  attr_hvac_modes :: "HVACMode list"
  attr_fan_modes :: "string list"
  attr_min_temp :: real
  attr_max_temp :: real
  tolerance :: real
  min_cycle_duration :: "int option"
  hvac_mode :: HVACMode
  target_temp :: real
  current_temp :: "real option"
  fan_mode :: "string option"
  vent_open :: bool
  last_vent_toggle :: "int option"

text \<open>
  What a zone handler does besides changing the zone: the calls it makes on the host
  platform and on the coordinator, in order. \<open>SwitchCall opn\<close> is the service call
  \<open>switch.turn_on\<close> (\<open>opn\<close>) or \<open>switch.turn_off\<close> on the zone's vent.
\<close>

datatype zone_event =
    WriteState
  | SwitchCall bool
  | ZoneChanged
  | FanModeChanged string
  | RegisterZone
  | LogWarning
  | LogDebug
  | LogException

datatype py_error = IndexError

text \<open>\<open>xs[i]\<close> for a non-negative index: out of range raises \<open>IndexError\<close>.\<close>

definition py_index :: "'a list \<Rightarrow> nat \<Rightarrow> py_error + 'a" where
  "py_index xs i = (if i < length xs then Inr (xs ! i) else Inl IndexError)"

text \<open>
  The outside world during one run of \<open>_async_control_vent\<close>: the clock when the
  minimum-cycle guard reads it, whether the switch service call returns (or raises),
  and the clock when the toggle time is recorded after the call.
\<close>

record env =
  utcnow_guard :: int
  switch_ok :: bool
  utcnow_set :: int

section \<open>Zone controller (\<open>climate.py\<close>)\<close>

definition zone_init ::
  "string \<Rightarrow> HVACMode list \<Rightarrow> string list \<Rightarrow> real \<Rightarrow> real \<Rightarrow> real \<Rightarrow> int option \<Rightarrow> zone" where
  "zone_init name modes fan_modes min_temp max_temp tol mcd =
     \<lparr> attr_name = name,
       attr_hvac_modes = modes,
       attr_fan_modes = fan_modes,
       attr_min_temp = min_temp,
       attr_max_temp = max_temp,
       tolerance = tol,
       min_cycle_duration = mcd,
       hvac_mode = OFF,
       target_temp = (min_temp + max_temp) / 2,
       current_temp = None,
       fan_mode = (case fan_modes of [] \<Rightarrow> None | f # _ \<Rightarrow> Some f),
       vent_open = False,
       last_vent_toggle = None \<rparr>"

definition should_vent_be_open :: "zone \<Rightarrow> bool" where
  "should_vent_be_open z =
     (let mode = hvac_mode z in
      if mode = OFF then False
      else if mode \<in> {FAN_ONLY, DRY} then True
      else case current_temp z of
        None \<Rightarrow> False
      | Some temp \<Rightarrow>
          (let target = target_temp z; tol = tolerance z in
           if mode = HEAT then
             (if temp < target - tol then True
              else if temp \<ge> target + tol then False
              else vent_open z)
           else if mode = COOL then
             (if temp > target + tol then True
              else if temp \<le> target - tol then False
              else vent_open z)
           else False))"

text \<open>
  The damper decision as the specification words it, on the five values it names.
\<close>

fun shouldDamperBeOpen :: "HVACMode \<Rightarrow> real option \<Rightarrow> real \<Rightarrow> real \<Rightarrow> bool \<Rightarrow> bool" where
  "shouldDamperBeOpen OFF cur tgt tol prev = False"
| "shouldDamperBeOpen FAN_ONLY cur tgt tol prev = True"
| "shouldDamperBeOpen DRY cur tgt tol prev = True"
| "shouldDamperBeOpen HEAT None tgt tol prev = False"
| "shouldDamperBeOpen COOL None tgt tol prev = False"
| "shouldDamperBeOpen HEAT (Some c) tgt tol prev =
     (if c < tgt - tol then True else if c \<ge> tgt + tol then False else prev)"
| "shouldDamperBeOpen COOL (Some c) tgt tol prev =
     (if c > tgt + tol then True else if c \<le> tgt - tol then False else prev)"
| "shouldDamperBeOpen _ cur tgt tol prev = False"

definition is_min_cycle_respected :: "int \<Rightarrow> zone \<Rightarrow> bool" where
  "is_min_cycle_respected utcnow z =
     (case min_cycle_duration z of
        None \<Rightarrow> True
      | Some d \<Rightarrow>
          (case last_vent_toggle z of
             None \<Rightarrow> True
           | Some t \<Rightarrow> utcnow - t \<ge> d))"

definition async_set_vent :: "env \<Rightarrow> bool \<Rightarrow> zone \<Rightarrow> zone \<times> zone_event list" where
  "async_set_vent e opn z =
     (if \<not> switch_ok e then (z, [SwitchCall opn, LogException])
      else (z\<lparr>vent_open := opn, last_vent_toggle := Some (utcnow_set e)\<rparr>,
            [SwitchCall opn, WriteState, ZoneChanged]))"

definition async_control_vent :: "env \<Rightarrow> zone \<Rightarrow> zone \<times> zone_event list" where
  "async_control_vent e z =
     (let desired = should_vent_be_open z in
      if desired = vent_open z then (z, [])
      else if \<not> is_min_cycle_respected (utcnow_guard e) z then (z, [LogDebug])
      else async_set_vent e desired z)"


definition async_set_hvac_mode :: "env \<Rightarrow> HVACMode \<Rightarrow> zone \<Rightarrow> zone \<times> zone_event list" where
  "async_set_hvac_mode e m z =
     (if m \<notin> set (attr_hvac_modes z) then (z, [LogWarning])
      else
        (let r = async_control_vent e (z\<lparr>hvac_mode := m\<rparr>)
         in (fst r, [WriteState] @ snd r @ [ZoneChanged])))"

text \<open>
  \<open>async_set_temperature(**kwargs)\<close>: the two keyword arguments it reads, the
  temperature (already a number) and the optional mode. Each of the two parts runs the
  damper control once, so there are two environments.
\<close>

definition async_set_temperature ::
  "env \<Rightarrow> env \<Rightarrow> real option \<Rightarrow> HVACMode option \<Rightarrow> zone \<Rightarrow> zone \<times> zone_event list" where
  "async_set_temperature e1 e2 temp mode z =
     (let r1 = (case temp of
                  None \<Rightarrow> (z, [])
                | Some t \<Rightarrow>
                    (let r = async_control_vent e1 (z\<lparr>target_temp := t\<rparr>)
                     in (fst r, [WriteState] @ snd r @ [ZoneChanged])));
          r2 = (case mode of
                  None \<Rightarrow> (fst r1, [])
                | Some m \<Rightarrow> async_set_hvac_mode e2 m (fst r1))
      in (fst r2, snd r1 @ snd r2))"

definition async_set_fan_mode :: "string \<Rightarrow> zone \<Rightarrow> zone \<times> zone_event list" where
  "async_set_fan_mode f z =
     (if f \<notin> set (attr_fan_modes z) then (z, [LogWarning])
      else (z\<lparr>fan_mode := Some f\<rparr>, [WriteState, FanModeChanged f]))"

definition async_turn_on :: "env \<Rightarrow> zone \<Rightarrow> py_error + zone \<times> zone_event list" where
  "async_turn_on e z =
     (if hvac_mode z \<noteq> OFF then Inr (async_set_hvac_mode e (hvac_mode z) z)
      else if COOL \<in> set (attr_hvac_modes z) then Inr (async_set_hvac_mode e COOL z)
      else case py_index (attr_hvac_modes z) 1 of
             Inl err \<Rightarrow> Inl err
           | Inr m \<Rightarrow> Inr (async_set_hvac_mode e m z))"

definition async_turn_off :: "env \<Rightarrow> zone \<Rightarrow> zone \<times> zone_event list" where
  "async_turn_off e z = async_set_hvac_mode e OFF z"

text \<open>
  The state of the temperature sensor entity as the zone sees it: no state object,
  the strings \<open>unknown\<close> and \<open>unavailable\<close>, a string that \<open>float\<close> rejects, or a
  number.
\<close>

datatype sensor_state =
    NoState | StateUnknown | StateUnavailable | StateUnparseable | StateValue real

fun update_current_temp :: "sensor_state \<Rightarrow> zone \<Rightarrow> zone \<times> zone_event list" where
  "update_current_temp (StateValue v) z = (z\<lparr>current_temp := Some v\<rparr>, [])"
| "update_current_temp StateUnparseable z = (z, [LogWarning])"
| "update_current_temp _ z = (z, [])"

text \<open>
  The two callbacks hand the damper control to a new task; the model runs it right
  after the callback.
\<close>

fun async_sensor_changed :: "env \<Rightarrow> sensor_state \<Rightarrow> zone \<Rightarrow> zone \<times> zone_event list" where
  "async_sensor_changed e (StateValue v) z =
     (let r = async_control_vent e (z\<lparr>current_temp := Some v\<rparr>)
      in (fst r, WriteState # snd r))"
| "async_sensor_changed e _ z = (z, [])"

definition async_startup_check :: "env \<Rightarrow> sensor_state \<Rightarrow> zone \<Rightarrow> zone \<times> zone_event list" where
  "async_startup_check e s z =
     (let r1 = update_current_temp s z; r2 = async_control_vent e (fst r1)
      in (fst r2, snd r1 @ snd r2))"

text \<open>
  The persisted state that \<open>async_get_last_state\<close> returns: the state string and the
  attributes the zone reads. \<open>ls_temperature\<close> is \<open>None\<close> when the attribute is missing,
  null or rejected by \<open>float\<close>; \<open>ls_vent_open\<close> is the attribute under \<open>bool\<close>;
  \<open>ls_last_vent_toggle\<close> is \<open>None\<close> when the attribute is missing or parsing raises,
  else the result of \<open>parse_datetime\<close> (itself optional).
\<close>

record last_state =
  ls_state :: string
  ls_temperature :: "real option"
  ls_vent_open :: "bool option"
  ls_last_vent_toggle :: "int option option"
  ls_fan_mode :: "string option"

definition restore_state :: "last_state option \<Rightarrow> zone \<Rightarrow> zone" where
  "restore_state lst z =
     (case lst of
        None \<Rightarrow> z
      | Some s \<Rightarrow>
          (let z1 = (case HVACMode_of_value (ls_state s) of
                       Some m \<Rightarrow> z\<lparr>hvac_mode := m\<rparr>
                     | None \<Rightarrow> z);
               z2 = (case ls_temperature s of
                       Some t \<Rightarrow> z1\<lparr>target_temp := t\<rparr>
                     | None \<Rightarrow> z1);
               z3 = (case ls_vent_open s of
                       Some v \<Rightarrow> z2\<lparr>vent_open := v\<rparr>
                     | None \<Rightarrow> z2);
               z4 = (case ls_last_vent_toggle s of
                       Some ts \<Rightarrow> z3\<lparr>last_vent_toggle := ts\<rparr>
                     | None \<Rightarrow> z3)
           in if fan_mode z4 \<noteq> None then
                (case ls_fan_mode s of
                   Some fm \<Rightarrow>
                     if fm \<noteq> [] \<and> fm \<in> set (attr_fan_modes z4)
                     then z4\<lparr>fan_mode := Some fm\<rparr> else z4
                 | None \<Rightarrow> z4)
              else z4))"

definition async_added_to_hass ::
  "last_state option \<Rightarrow> sensor_state \<Rightarrow> zone \<Rightarrow> zone \<times> zone_event list" where
  "async_added_to_hass lst s z =
     (let r = update_current_temp s (restore_state lst z)
      in (fst r, snd r @ [RegisterZone, WriteState]))"

subsection \<open>Zone histories\<close>

text \<open>
  The entry points of a zone, with what the outside world answers during each, and
  the zone state after a sequence of them. A raised \<open>IndexError\<close> leaves the zone as
  it was. Each operation of a history runs to its end before the next one starts: a
  history does not describe handlers that overlap while one of them waits in its
  switch call.
\<close>

datatype zone_op =
    SetHvacMode env HVACMode
  | SetTemperature env env "real option" "HVACMode option"
  | SetFanMode string
  | TurnOn env
  | TurnOff env
  | SensorChanged env sensor_state
  | StartupCheck env sensor_state
  | AddedToHass "last_state option" sensor_state

fun zone_step :: "zone \<Rightarrow> zone_op \<Rightarrow> zone" where
  "zone_step z (SetHvacMode e m) = fst (async_set_hvac_mode e m z)"
| "zone_step z (SetTemperature e1 e2 t m) = fst (async_set_temperature e1 e2 t m z)"
| "zone_step z (SetFanMode f) = fst (async_set_fan_mode f z)"
| "zone_step z (TurnOn e) = (case async_turn_on e z of Inl _ \<Rightarrow> z | Inr r \<Rightarrow> fst r)"
| "zone_step z (TurnOff e) = fst (async_turn_off e z)"
| "zone_step z (SensorChanged e s) = fst (async_sensor_changed e s z)"
| "zone_step z (StartupCheck e s) = fst (async_startup_check e s z)"
| "zone_step z (AddedToHass lst s) = fst (async_added_to_hass lst s z)"

definition zone_run :: "zone \<Rightarrow> zone_op list \<Rightarrow> zone" where
  "zone_run z ops = foldl zone_step z ops"

text \<open>
  The two properties of the mode and the target temperature, and the configuration
  fields that no handler writes.
\<close>

definition zone_inv :: "zone \<Rightarrow> bool" where
  "zone_inv z =
     (hvac_mode z \<in> set (attr_hvac_modes z)
      \<and> attr_min_temp z \<le> target_temp z \<and> target_temp z \<le> attr_max_temp z)"

definition same_config :: "zone \<Rightarrow> zone \<Rightarrow> bool" where
  "same_config z z' =
     (attr_hvac_modes z' = attr_hvac_modes z \<and> attr_min_temp z' = attr_min_temp z
      \<and> attr_max_temp z' = attr_max_temp z \<and> min_cycle_duration z' = min_cycle_duration z)"

text \<open>
  A request stays within the configuration when the temperature it asks for lies
  within the configured bounds, and when the persisted state it restores holds a
  configured mode and a temperature within the bounds.
\<close>

fun op_within_config :: "zone \<Rightarrow> zone_op \<Rightarrow> bool" where
  "op_within_config z (SetTemperature e1 e2 (Some t) m) =
     (attr_min_temp z \<le> t \<and> t \<le> attr_max_temp z)"
| "op_within_config z (AddedToHass (Some s) r) =
     ((case HVACMode_of_value (ls_state s) of
         None \<Rightarrow> True
       | Some m \<Rightarrow> m \<in> set (attr_hvac_modes z))
      \<and> (case ls_temperature s of
            None \<Rightarrow> True
          | Some t \<Rightarrow> attr_min_temp z \<le> t \<and> t \<le> attr_max_temp z))"
| "op_within_config z _ = True"

section \<open>Coordinator (\<open>__init__.py\<close>)\<close>

text \<open>
  The state of \<open>MotorCoordinator\<close>. \<open>sensor\<close> tells whether a status sensor has been
  registered. \<open>pending_sync\<close> refers to a task of the event loop by its position in
  the loop's task table. The registered zones are objects shared with the zone
  entities: the aggregation pass takes their states, as they are when it reads them, as
  an argument.
\<close>

record coordinator =
  pending_sync :: "nat option"
  last_active_mode :: "string option"
  last_motor_temp :: "real option"
  last_fan_mode :: "string option"
  sensor :: bool

datatype motor_event =
    MotorTurnOff
  | MotorSetHvacMode string
  | MotorSetTemperature real
  | MotorSetFanMode string
  | MotorLogException
  | SensorUpdate

text \<open>Whether each service call on the shared unit returns (or raises).\<close>

record motor_env =
  turn_off_ok :: bool
  set_hvac_mode_ok :: bool
  set_temperature_ok :: bool
  set_fan_mode_ok :: bool

definition coordinator_init :: coordinator where
  "coordinator_init =
     \<lparr> pending_sync = None, last_active_mode = None, last_motor_temp = None,
       last_fan_mode = None, sensor = False \<rparr>"

definition register_sensor :: "coordinator \<Rightarrow> coordinator" where
  "register_sensor c = c\<lparr>sensor := True\<rparr>"

definition notify_sensor :: "coordinator \<Rightarrow> motor_event list" where
  "notify_sensor c = (if sensor c then [SensorUpdate] else [])"

text \<open>
  Python's \<open>min\<close> and \<open>max\<close> on a list: one pass that keeps the first extreme element.
  The source calls them on a non-empty list only and takes \<open>None\<close> for an empty one.
\<close>

fun min_from :: "real \<Rightarrow> real list \<Rightarrow> real" where
  "min_from m [] = m"
| "min_from m (x # xs) = min_from (if x < m then x else m) xs"

fun max_from :: "real \<Rightarrow> real list \<Rightarrow> real" where
  "max_from m [] = m"
| "max_from m (x # xs) = max_from (if x > m then x else m) xs"

definition min_or_None :: "real list \<Rightarrow> real option" where
  "min_or_None xs = (case xs of [] \<Rightarrow> None | x # ys \<Rightarrow> Some (min_from x ys))"

definition max_or_None :: "real list \<Rightarrow> real option" where
  "max_or_None xs = (case xs of [] \<Rightarrow> None | x # ys \<Rightarrow> Some (max_from x ys))"

definition async_sync_motor ::
  "motor_env \<Rightarrow> zone list \<Rightarrow> coordinator \<Rightarrow> coordinator \<times> motor_event list" where
  "async_sync_motor e zs c =
     (let open_zones = filter vent_open zs in
      if open_zones = [] then
        (let c1 = c\<lparr>last_active_mode := None, last_motor_temp := None\<rparr>
         in (c1, [MotorTurnOff] @ (if turn_off_ok e then [] else [MotorLogException])
                 @ notify_sensor c1))
      else
        (let open_modes = set (map hvac_mode open_zones);
             target_mode = (case find (\<lambda>m. m \<in> open_modes) MODE_PRIORITY of
                              Some m \<Rightarrow> m
                            | None \<Rightarrow> FAN_ONLY);
             open_temps = map target_temp
                            (filter (\<lambda>z. hvac_mode z \<in> TEMP_CONTROLLED_MODES) open_zones);
             target = (if target_mode = COOL then min_or_None open_temps
                       else if target_mode = HEAT then max_or_None open_temps
                       else None);
             c1 = c\<lparr>last_active_mode := Some (HVACMode_value target_mode),
                    last_motor_temp := target\<rparr>
         in if \<not> set_hvac_mode_ok e then
              (c1, [MotorSetHvacMode (HVACMode_value target_mode), MotorLogException]
                   @ notify_sensor c1)
            else
              (c1, [MotorSetHvacMode (HVACMode_value target_mode)]
                   @ (case target of
                        None \<Rightarrow> []
                      | Some t \<Rightarrow>
                          MotorSetTemperature t
                          # (if set_temperature_ok e then [] else [MotorLogException]))
                   @ (case last_fan_mode c1 of
                        None \<Rightarrow> []
                      | Some f \<Rightarrow>
                          MotorSetFanMode f
                          # (if set_fan_mode_ok e then [] else [MotorLogException]))
                   @ notify_sensor c1)))"

subsection \<open>Debounced scheduling\<close>

text \<open>
  The event loop holds the tasks created by \<open>async_create_task\<close>. A sync task is
  pending until it has passed its first \<open>await\<close> and starts reading the zones, then
  running, then done; \<open>Task.done()\<close> is true of the last only.
\<close>

datatype task_status = TaskPending | TaskRunning | TaskDone

type_synonym loop = "task_status list"

definition task_done :: "loop \<Rightarrow> nat \<Rightarrow> bool" where
  "task_done l i = (i < length l \<and> l ! i = TaskDone)"

text \<open>\<open>hass.async_create_task\<close>: the new task's reference and the loop holding it.\<close>

definition async_create_task :: "loop \<Rightarrow> nat \<times> loop" where
  "async_create_task l = (length l, l @ [TaskPending])"

definition async_zone_changed :: "coordinator \<times> loop \<Rightarrow> coordinator \<times> loop" where
  "async_zone_changed cl =
     (let c = fst cl; l = snd cl in
      if (case pending_sync c of None \<Rightarrow> False | Some i \<Rightarrow> \<not> task_done l i) then (c, l)
      else (let r = async_create_task l in (c\<lparr>pending_sync := Some (fst r)\<rparr>, snd r)))"

definition async_fan_mode_changed ::
  "string \<Rightarrow> coordinator \<times> loop \<Rightarrow> coordinator \<times> loop" where
  "async_fan_mode_changed f cl = async_zone_changed ((fst cl)\<lparr>last_fan_mode := Some f\<rparr>, snd cl)"

text \<open>
  What can happen to the coordinator and the loop: a zone-change notification, a
  pending task starting to read the zones, a running task finishing.
\<close>

datatype loop_event = Notify | TaskStarts nat | TaskFinishes nat

fun loop_step :: "coordinator \<times> loop \<Rightarrow> loop_event \<Rightarrow> coordinator \<times> loop" where
  "loop_step cl Notify = async_zone_changed cl"
| "loop_step (c, l) (TaskStarts i) =
     (if i < length l \<and> l ! i = TaskPending then (c, l[i := TaskRunning]) else (c, l))"
| "loop_step (c, l) (TaskFinishes i) =
     (if i < length l \<and> l ! i = TaskRunning then (c, l[i := TaskDone]) else (c, l))"

definition loop_run :: "coordinator \<times> loop \<Rightarrow> loop_event list \<Rightarrow> coordinator \<times> loop" where
  "loop_run cl evs = foldl loop_step cl evs"

text \<open>The tasks that are pending or running.\<close>

definition in_flight :: "loop \<Rightarrow> nat" where
  "in_flight l = length (filter (\<lambda>t. t \<noteq> TaskDone) l)"

text \<open>
  The scheduler's invariant: the coordinator's task reference, if any, is a task of
  the loop, and every other task of the loop is done.
\<close>

definition sched_inv :: "coordinator \<times> loop \<Rightarrow> bool" where
  "sched_inv cl =
     ((case pending_sync (fst cl) of None \<Rightarrow> True | Some i \<Rightarrow> i < length (snd cl))
      \<and> (\<forall>j < length (snd cl). pending_sync (fst cl) \<noteq> Some j \<longrightarrow> snd cl ! j = TaskDone))"

section \<open>Example configurations\<close>

text \<open>
  Concrete zones, environments and coordinators on which the theorems below are
  exercised. \<open>zones_ABC\<close> is the specification's mode-priority scenario: A open in
  Cool at 20, B open in Heat at 22, C closed in Dry.
\<close>

definition env_at :: "int \<Rightarrow> bool \<Rightarrow> env" where
  "env_at t ok = \<lparr> utcnow_guard = t, switch_ok = ok, utcnow_set = t \<rparr>"

definition zone_living :: zone where
  "zone_living = zone_init ''living'' [OFF, HEAT, COOL] [] 16 30 0.3 (Some 300000000)"

definition zone_off_only :: zone where
  "zone_off_only = zone_init ''hall'' [OFF] [] 16 30 0.3 None"

definition zone_heat_only :: zone where
  "zone_heat_only = zone_init ''attic'' [OFF, HEAT] [] 16 30 0.3 None"

definition zone_A :: zone where
  "zone_A = (zone_init ''A'' [OFF, HEAT, COOL, FAN_ONLY, DRY] [] 16 30 0.3 None)
              \<lparr>hvac_mode := COOL, target_temp := 20, vent_open := True\<rparr>"

definition zone_B :: zone where
  "zone_B = (zone_init ''B'' [OFF, HEAT, COOL, FAN_ONLY, DRY] [] 16 30 0.3 None)
              \<lparr>hvac_mode := HEAT, target_temp := 22, vent_open := True\<rparr>"

definition zone_C :: zone where
  "zone_C = (zone_init ''C'' [OFF, HEAT, COOL, FAN_ONLY, DRY] [] 16 30 0.3 None)
              \<lparr>hvac_mode := DRY\<rparr>"

definition zones_ABC :: "zone list" where
  "zones_ABC = [zone_A, zone_B, zone_C]"

definition motor_env_ok :: motor_env where
  "motor_env_ok = \<lparr> turn_off_ok = True, set_hvac_mode_ok = True,
                     set_temperature_ok = True, set_fan_mode_ok = True \<rparr>"

definition motor_env_mode_fails :: motor_env where
  "motor_env_mode_fails = motor_env_ok\<lparr>set_hvac_mode_ok := False\<rparr>"

definition motor_env_temp_fails :: motor_env where
  "motor_env_temp_fails = motor_env_ok\<lparr>set_temperature_ok := False\<rparr>"

definition coordinator_high :: coordinator where
  "coordinator_high = (register_sensor coordinator_init)\<lparr>last_fan_mode := Some ''high''\<rparr>"

definition cooling_ops :: "zone_op list" where
  "cooling_ops =
     [SetHvacMode (env_at 0 True) COOL, SensorChanged (env_at 0 True) (StateValue 30)]"

text \<open>
  The living-room zone after it has opened its damper for cooling at time 0, with a
  later reading of 20 degrees already stored.
\<close>

definition zone_cooled :: zone where
  "zone_cooled = (zone_run zone_living cooling_ops)\<lparr>current_temp := Some 20\<rparr>"

text \<open>
  Persisted states: one with a mode that is not configured and a temperature below
  the bounds, one within the configuration; and an operation sequence that stays
  within the configuration.
\<close>

definition persisted_auto :: last_state where
  "persisted_auto = \<lparr> ls_state = ''auto'', ls_temperature = Some 5, ls_vent_open = Some True,
                       ls_last_vent_toggle = None, ls_fan_mode = None \<rparr>"

definition persisted_heat :: last_state where
  "persisted_heat = \<lparr> ls_state = ''heat'', ls_temperature = Some 21.5, ls_vent_open = Some True,
                       ls_last_vent_toggle = Some (Some 7), ls_fan_mode = None \<rparr>"

definition in_bounds_ops :: "zone_op list" where
  "in_bounds_ops =
     [AddedToHass (Some persisted_heat) NoState,
      SetTemperature (env_at 0 True) (env_at 0 True) (Some 25) (Some COOL),
      SetHvacMode (env_at 1 True) DRY,
      TurnOff (env_at 2 True)]"


text \<open>
  A zone without a minimum cycle duration, in Cool with its damper closed, once a
  reading of 30 degrees has been stored: the state in which the control task of that
  reading starts.
\<close>



section \<open>The damper decision\<close>

text \<open>
  C1. The damper decision of the code depends on the zone's mode, current temperature,
  target temperature, tolerance and damper state only, and equals the reference
  definition of the specification: Off is closed; FanOnly and Dry are open; Heat and
  Cool without a reading are closed; with a reading they open and close outside the
  dead-band and hold the previous damper state inside it; any other mode is closed.
\<close>

theorem should_vent_be_open_refines_spec:
  "should_vent_be_open z =
     shouldDamperBeOpen (hvac_mode z) (current_temp z) (target_temp z) (tolerance z) (vent_open z)"
  by (cases "hvac_mode z"; cases "current_temp z"; simp add: should_vent_be_open_def Let_def)

section \<open>The minimum-cycle guard\<close>

text \<open>
  C3. When a minimum cycle duration is configured, the damper decision differs from
  the damper state and less than that duration has passed since the last toggle, the
  control step changes nothing in the zone (in particular neither the damper state nor
  the toggle time), and all it does is write a debug log line: no switch call, no
  notification, nothing scheduled.
\<close>

theorem min_cycle_guard_suppresses:
  assumes "min_cycle_duration z = Some d"
    and "last_vent_toggle z = Some t"
    and "utcnow_guard e - t < d"
    and "should_vent_be_open z \<noteq> vent_open z"
  shows "async_control_vent e z = (z, [LogDebug])"
  using assms by (simp add: async_control_vent_def is_min_cycle_respected_def)

theorem min_cycle_guard_suppresses_witness:
  "min_cycle_duration zone_cooled = Some 300000000
   \<and> last_vent_toggle zone_cooled = Some 0
   \<and> utcnow_guard (env_at 100000000 True) - 0 < (300000000::int)
   \<and> should_vent_be_open zone_cooled \<noteq> vent_open zone_cooled
   \<and> async_control_vent (env_at 100000000 True) zone_cooled = (zone_cooled, [LogDebug])"
  using min_cycle_guard_suppresses [of zone_cooled 300000000 0 "env_at 100000000 True"]
  by (simp add: zone_cooled_def zone_run_def zone_living_def cooling_ops_def zone_init_def
      env_at_def async_set_hvac_mode_def async_control_vent_def should_vent_be_open_def
      is_min_cycle_respected_def async_set_vent_def)

section \<open>Damper actuation\<close>

text \<open>
  C4. An actuation attempt always makes the switch call. If the call raises, the zone
  is unchanged (damper state and toggle time included) and the coordinator is not
  notified; if it returns, the damper state is the requested one, the toggle time is
  the current time, and the coordinator is notified.
\<close>

theorem set_vent_outcome:
  "(\<not> switch_ok e \<longrightarrow>
      fst (async_set_vent e opn z) = z
      \<and> ZoneChanged \<notin> set (snd (async_set_vent e opn z)))
   \<and> (switch_ok e \<longrightarrow>
      vent_open (fst (async_set_vent e opn z)) = opn
      \<and> last_vent_toggle (fst (async_set_vent e opn z)) = Some (utcnow_set e)
      \<and> ZoneChanged \<in> set (snd (async_set_vent e opn z)))
   \<and> SwitchCall opn \<in> set (snd (async_set_vent e opn z))"
  by (simp add: async_set_vent_def)

theorem set_vent_outcome_witness:
  "\<not> switch_ok (env_at 5 False)
   \<and> async_set_vent (env_at 5 False) True zone_living = (zone_living, [SwitchCall True, LogException])
   \<and> switch_ok (env_at 5 True)
   \<and> vent_open (fst (async_set_vent (env_at 5 True) True zone_living))
   \<and> last_vent_toggle (fst (async_set_vent (env_at 5 True) True zone_living)) = Some 5
   \<and> snd (async_set_vent (env_at 5 True) True zone_living)
       = [SwitchCall True, WriteState, ZoneChanged]"
  using set_vent_outcome [of "env_at 5 False" True zone_living]
    set_vent_outcome [of "env_at 5 True" True zone_living]
  by (simp add: env_at_def async_set_vent_def)

section \<open>Aggregation\<close>

lemma min_from_Min: "min_from m xs = Min (set (m # xs))"
proof (induction xs arbitrary: m)
  case Nil
  show ?case by simp
next
  case (Cons x xs)
  have "min_from m (x # xs) = Min (set ((if x < m then x else m) # xs))"
    using Cons.IH by simp
  also have "\<dots> = Min (set (m # x # xs))"
    by (cases xs) (auto simp: min_def)
  finally show ?case .
qed

lemma max_from_Max: "max_from m xs = Max (set (m # xs))"
proof (induction xs arbitrary: m)
  case Nil
  show ?case by simp
next
  case (Cons x xs)
  have "max_from m (x # xs) = Max (set ((if x > m then x else m) # xs))"
    using Cons.IH by simp
  also have "\<dots> = Max (set (m # x # xs))"
    by (cases xs) (auto simp: max_def)
  finally show ?case .
qed

lemma min_or_None_eq: "min_or_None xs = (if xs = [] then None else Some (Min (set xs)))"
  by (cases xs) (simp_all add: min_or_None_def min_from_Min)

lemma max_or_None_eq: "max_or_None xs = (if xs = [] then None else Some (Max (set xs)))"
  by (cases xs) (simp_all add: max_or_None_def max_from_Max)

lemma find_MODE_PRIORITY:
  "(case find (\<lambda>m. m \<in> M) MODE_PRIORITY of Some m \<Rightarrow> m | None \<Rightarrow> FAN_ONLY)
     = (if COOL \<in> M then COOL else if HEAT \<in> M then HEAT
        else if DRY \<in> M then DRY else FAN_ONLY)"
  by (simp add: MODE_PRIORITY_def)

lemma sync_motor_closed:
  assumes "filter vent_open zs = []"
  shows "async_sync_motor e zs c =
           (c\<lparr>last_active_mode := None, last_motor_temp := None\<rparr>,
            [MotorTurnOff] @ (if turn_off_ok e then [] else [MotorLogException])
            @ notify_sensor c)"
  using assms by (simp add: async_sync_motor_def notify_sensor_def)

lemma sync_motor_open:
  assumes "oz = filter vent_open zs" and "oz \<noteq> []"
    and "ms = hvac_mode ` set oz"
    and "tm = (if COOL \<in> ms then COOL else if HEAT \<in> ms then HEAT
               else if DRY \<in> ms then DRY else FAN_ONLY)"
    and "qual = map target_temp (filter (\<lambda>z. hvac_mode z = HEAT \<or> hvac_mode z = COOL) oz)"
    and "tg = (if tm = COOL then min_or_None qual
               else if tm = HEAT then max_or_None qual else None)"
  shows "async_sync_motor e zs c =
           (c\<lparr>last_active_mode := Some (HVACMode_value tm), last_motor_temp := tg\<rparr>,
            MotorSetHvacMode (HVACMode_value tm)
            # (if \<not> set_hvac_mode_ok e then MotorLogException # notify_sensor c
               else (case tg of
                       None \<Rightarrow> []
                     | Some t \<Rightarrow>
                         MotorSetTemperature t
                         # (if set_temperature_ok e then [] else [MotorLogException]))
                    @ (case last_fan_mode c of
                         None \<Rightarrow> []
                       | Some f \<Rightarrow>
                           MotorSetFanMode f
                           # (if set_fan_mode_ok e then [] else [MotorLogException]))
                    @ notify_sensor c))"
  using assms
  by (simp add: async_sync_motor_def Let_def find_MODE_PRIORITY TEMP_CONTROLLED_MODES_def
      notify_sensor_def)

lemma temp_cmds_set:
  "MotorSetTemperature t \<in> set
     ((case tg of None \<Rightarrow> [] | Some u \<Rightarrow> MotorSetTemperature u # (if b then [] else [MotorLogException]))
      @ (case fm of None \<Rightarrow> [] | Some f \<Rightarrow> MotorSetFanMode f # (if b' then [] else [MotorLogException]))
      @ notify_sensor c) \<longleftrightarrow> tg = Some t"
  by (auto simp: notify_sensor_def split: option.splits)

lemma turn_off_not_in_cmds:
  "MotorTurnOff \<notin> set
     ((case tg of None \<Rightarrow> [] | Some u \<Rightarrow> MotorSetTemperature u # (if b then [] else [MotorLogException]))
      @ (case fm of None \<Rightarrow> [] | Some f \<Rightarrow> MotorSetFanMode f # (if b' then [] else [MotorLogException]))
      @ notify_sensor c)"
  by (auto simp: notify_sensor_def split: option.splits)

lemma rest_count:
  "count_list
     ((case tg of None \<Rightarrow> [] | Some u \<Rightarrow> MotorSetTemperature u # (if b then [] else [MotorLogException]))
      @ (case fm of None \<Rightarrow> [] | Some f \<Rightarrow> MotorSetFanMode f # (if b' then [] else [MotorLogException]))
      @ notify_sensor c) SensorUpdate = (if sensor c then 1 else 0)"
  by (simp add: notify_sensor_def split: option.splits)

lemma rest_fan:
  "MotorSetFanMode g \<in> set
     ((case tg of None \<Rightarrow> [] | Some u \<Rightarrow> MotorSetTemperature u # (if b then [] else [MotorLogException]))
      @ (case fm of None \<Rightarrow> [] | Some f \<Rightarrow> MotorSetFanMode f # (if b' then [] else [MotorLogException]))
      @ notify_sensor c) \<longleftrightarrow> fm = Some g"
  by (auto simp: notify_sensor_def split: option.splits)

text \<open>
  C2. One aggregation pass. If no zone has its damper open, the pass sends the
  turn-off command (and no other command) and clears the mode and temperature it
  remembers. Otherwise the target mode is Cool if an open zone is in Cool, else Heat if
  one is in Heat, else Dry if one is in Dry, else FanOnly; the target temperature is
  the minimum (Cool) or maximum (Heat) of the target temperatures of the open zones
  in Heat or Cool, and absent for any other target mode or when there is no such
  zone; a temperature command is sent only for the target temperature, and is sent
  for it whenever the mode command has returned.
\<close>

theorem sync_motor_aggregation:
  assumes run: "async_sync_motor e zs c = (c', tr)"
    and oz: "oz = filter vent_open zs"
    and ms: "ms = hvac_mode ` set oz"
    and qual: "qual = map target_temp (filter (\<lambda>z. hvac_mode z = HEAT \<or> hvac_mode z = COOL) oz)"
    and tm: "tm = (if COOL \<in> ms then COOL else if HEAT \<in> ms then HEAT
                   else if DRY \<in> ms then DRY else FAN_ONLY)"
  shows "(oz = [] \<longrightarrow>
            hd tr = MotorTurnOff
            \<and> set tr \<subseteq> {MotorTurnOff, MotorLogException, SensorUpdate}
            \<and> last_active_mode c' = None \<and> last_motor_temp c' = None)
         \<and> (oz \<noteq> [] \<longrightarrow>
            hd tr = MotorSetHvacMode (HVACMode_value tm)
            \<and> MotorTurnOff \<notin> set tr
            \<and> last_active_mode c' = Some (HVACMode_value tm)
            \<and> last_motor_temp c' =
                (if tm = COOL \<and> qual \<noteq> [] then Some (Min (set qual))
                 else if tm = HEAT \<and> qual \<noteq> [] then Some (Max (set qual))
                 else None)
            \<and> (\<forall>t. MotorSetTemperature t \<in> set tr \<longrightarrow> last_motor_temp c' = Some t)
            \<and> (\<forall>t. set_hvac_mode_ok e \<and> last_motor_temp c' = Some t
                   \<longrightarrow> MotorSetTemperature t \<in> set tr)
            \<and> ((tm \<noteq> COOL \<and> tm \<noteq> HEAT) \<or> qual = []
                   \<longrightarrow> (\<forall>t. MotorSetTemperature t \<notin> set tr)))"
proof (cases "oz = []")
  case True
  then have "(c', tr) = (c\<lparr>last_active_mode := None, last_motor_temp := None\<rparr>,
            [MotorTurnOff] @ (if turn_off_ok e then [] else [MotorLogException])
            @ notify_sensor c)"
    using sync_motor_closed [of zs e c] run oz by simp
  then show ?thesis using True by (auto simp: notify_sensor_def)
next
  case False
  define tg where "tg = (if tm = COOL then min_or_None qual
               else if tm = HEAT then max_or_None qual else None)"
  note res = sync_motor_open [OF oz False ms tm qual tg_def, of e c]
  define rest where "rest =
      (case tg of
         None \<Rightarrow> []
       | Some t \<Rightarrow>
           MotorSetTemperature t
           # (if set_temperature_ok e then [] else [MotorLogException]))
      @ (case last_fan_mode c of
           None \<Rightarrow> []
         | Some f \<Rightarrow>
             MotorSetFanMode f
             # (if set_fan_mode_ok e then [] else [MotorLogException]))
      @ notify_sensor c"
  have c': "c' = c\<lparr>last_active_mode := Some (HVACMode_value tm), last_motor_temp := tg\<rparr>"
    using run res by simp
  have tr: "tr = MotorSetHvacMode (HVACMode_value tm)
            # (if \<not> set_hvac_mode_ok e then MotorLogException # notify_sensor c else rest)"
    using run res unfolding rest_def by simp
  have tg: "tg = (if tm = COOL \<and> qual \<noteq> [] then Some (Min (set qual))
                 else if tm = HEAT \<and> qual \<noteq> [] then Some (Max (set qual))
                 else None)"
    by (simp add: tg_def min_or_None_eq max_or_None_eq)
  have rest_temp: "MotorSetTemperature t \<in> set rest \<longleftrightarrow> tg = Some t" for t
    unfolding rest_def by (rule temp_cmds_set)
  have rest_off: "MotorTurnOff \<notin> set rest"
    unfolding rest_def by (rule turn_off_not_in_cmds)
  have temp_in: "MotorSetTemperature t \<in> set tr \<longleftrightarrow> set_hvac_mode_ok e \<and> tg = Some t" for t
    by (simp add: tr rest_temp notify_sensor_def)
  have no_off: "MotorTurnOff \<notin> set tr"
    by (simp add: tr rest_off notify_sensor_def)
  have 1: "hd tr = MotorSetHvacMode (HVACMode_value tm)" by (simp add: tr)
  have 2: "last_active_mode c' = Some (HVACMode_value tm)" by (simp add: c')
  have 3: "last_motor_temp c' = tg" by (simp add: c')
  have 4: "(tm \<noteq> COOL \<and> tm \<noteq> HEAT) \<or> qual = [] \<longrightarrow> tg = None"
    by (auto simp: tg)
  show ?thesis
    using False 1 2 3 4 no_off temp_in tg by simp
qed

theorem sync_motor_aggregation_witness:
  "filter vent_open zones_ABC \<noteq> []
   \<and> last_active_mode (fst (async_sync_motor motor_env_ok zones_ABC coordinator_init)) = Some ''cool''
   \<and> last_motor_temp (fst (async_sync_motor motor_env_ok zones_ABC coordinator_init)) = Some 20
   \<and> MotorSetTemperature 20 \<in> set (snd (async_sync_motor motor_env_ok zones_ABC coordinator_init))
   \<and> filter vent_open [zone_C] = []
   \<and> hd (snd (async_sync_motor motor_env_ok [zone_C] coordinator_init)) = MotorTurnOff
   \<and> last_active_mode (fst (async_sync_motor motor_env_ok [zone_C] coordinator_init)) = None"
  using sync_motor_aggregation [where e = motor_env_ok and zs = zones_ABC
      and c = coordinator_init, OF surjective_pairing refl refl refl refl]
    sync_motor_aggregation [where e = motor_env_ok and zs = "[zone_C]"
      and c = coordinator_init, OF surjective_pairing refl refl refl refl]
  by (simp add: zones_ABC_def zone_A_def zone_B_def zone_C_def zone_init_def
      motor_env_ok_def)

text \<open>
  C5. Failure paths of one aggregation pass. The pass pushes the status sensor exactly
  once on every path (when one is registered). If the mode command raises, no
  temperature and no fan command is attempted. If the mode command returns, the fan
  command is attempted exactly when a fan mode has been recorded, whatever happens to
  the temperature command; in particular a temperature command that raises is followed
  by the fan command.
\<close>

theorem sync_motor_failure_paths:
  assumes run: "async_sync_motor e zs c = (c', tr)"
  shows "count_list tr SensorUpdate = (if sensor c then 1 else 0)
     \<and> (filter vent_open zs \<noteq> [] \<and> \<not> set_hvac_mode_ok e \<longrightarrow>
          (\<forall>t. MotorSetTemperature t \<notin> set tr) \<and> (\<forall>f. MotorSetFanMode f \<notin> set tr))
     \<and> (filter vent_open zs \<noteq> [] \<and> set_hvac_mode_ok e \<longrightarrow>
          (\<forall>f. MotorSetFanMode f \<in> set tr \<longleftrightarrow> last_fan_mode c = Some f))
     \<and> (\<forall>t f. MotorSetTemperature t \<in> set tr \<and> \<not> set_temperature_ok e
               \<and> last_fan_mode c = Some f \<longrightarrow> MotorSetFanMode f \<in> set tr)"
proof (cases "filter vent_open zs = []")
  case True
  have tr: "tr = [MotorTurnOff] @ (if turn_off_ok e then [] else [MotorLogException])
            @ notify_sensor c"
    using sync_motor_closed [OF True, of e c] run by simp
  have "count_list tr SensorUpdate = (if sensor c then 1 else 0)"
    by (simp add: tr notify_sensor_def)
  moreover have "MotorSetTemperature t \<notin> set tr" for t
    by (simp add: tr notify_sensor_def)
  ultimately show ?thesis using True by simp
next
  case False
  define oz where "oz = filter vent_open zs"
  define ms where "ms = hvac_mode ` set oz"
  define tm where "tm = (if COOL \<in> ms then COOL else if HEAT \<in> ms then HEAT
               else if DRY \<in> ms then DRY else FAN_ONLY)"
  define qual where "qual = map target_temp (filter (\<lambda>z. hvac_mode z = HEAT \<or> hvac_mode z = COOL) oz)"
  define tg where "tg = (if tm = COOL then min_or_None qual
               else if tm = HEAT then max_or_None qual else None)"
  define rest where "rest =
      (case tg of
         None \<Rightarrow> []
       | Some t \<Rightarrow>
           MotorSetTemperature t
           # (if set_temperature_ok e then [] else [MotorLogException]))
      @ (case last_fan_mode c of
           None \<Rightarrow> []
         | Some f \<Rightarrow>
             MotorSetFanMode f
             # (if set_fan_mode_ok e then [] else [MotorLogException]))
      @ notify_sensor c"
  have nonempty: "oz \<noteq> []" using False by (simp add: oz_def)
  note res = sync_motor_open [OF oz_def nonempty ms_def tm_def qual_def tg_def, of e c]
  have tr: "tr = MotorSetHvacMode (HVACMode_value tm)
            # (if \<not> set_hvac_mode_ok e then MotorLogException # notify_sensor c else rest)"
    using run res unfolding rest_def by simp
  have cnt_rest: "count_list rest SensorUpdate = (if sensor c then 1 else 0)"
    unfolding rest_def by (rule rest_count)
  have fan_rest: "MotorSetFanMode g \<in> set rest \<longleftrightarrow> last_fan_mode c = Some g" for g
    unfolding rest_def by (rule rest_fan)
  have cnt: "count_list tr SensorUpdate = (if sensor c then 1 else 0)"
    by (simp add: tr cnt_rest notify_sensor_def)
  have fail: "\<not> set_hvac_mode_ok e \<Longrightarrow>
      MotorSetTemperature t \<notin> set tr \<and> MotorSetFanMode g \<notin> set tr" for t g
    by (simp add: tr notify_sensor_def)
  have fan: "set_hvac_mode_ok e \<Longrightarrow>
      MotorSetFanMode g \<in> set tr \<longleftrightarrow> last_fan_mode c = Some g" for g
    by (simp add: tr fan_rest)
  have temp_ok: "MotorSetTemperature t \<in> set tr \<Longrightarrow> set_hvac_mode_ok e" for t
    using fail by blast
  show ?thesis
    using False cnt fail fan temp_ok by blast
qed

theorem sync_motor_failure_paths_witness:
  "filter vent_open zones_ABC \<noteq> [] \<and> \<not> set_hvac_mode_ok motor_env_mode_fails
   \<and> snd (async_sync_motor motor_env_mode_fails zones_ABC coordinator_high)
       = [MotorSetHvacMode ''cool'', MotorLogException, SensorUpdate]
   \<and> set_hvac_mode_ok motor_env_temp_fails \<and> \<not> set_temperature_ok motor_env_temp_fails
   \<and> last_fan_mode coordinator_high = Some ''high''
   \<and> snd (async_sync_motor motor_env_temp_fails zones_ABC coordinator_high)
       = [MotorSetHvacMode ''cool'', MotorSetTemperature 20, MotorLogException,
          MotorSetFanMode ''high'', SensorUpdate]"
  using sync_motor_failure_paths [where e = motor_env_mode_fails and zs = zones_ABC
      and c = coordinator_high, OF surjective_pairing]
    sync_motor_failure_paths [where e = motor_env_temp_fails and zs = zones_ABC
      and c = coordinator_high, OF surjective_pairing]
  by (simp add: zones_ABC_def zone_A_def zone_B_def zone_C_def zone_init_def
      motor_env_mode_fails_def motor_env_temp_fails_def motor_env_ok_def
      coordinator_high_def coordinator_init_def register_sensor_def
      async_sync_motor_def MODE_PRIORITY_def TEMP_CONTROLLED_MODES_def
      min_or_None_def notify_sensor_def)

section \<open>Debounce\<close>

lemma zone_changed_in_flight:
  assumes "pending_sync c = Some i" and "i < length l" and "l ! i \<noteq> TaskDone"
  shows "async_zone_changed (c, l) = (c, l)"
  using assms by (simp add: async_zone_changed_def task_done_def)

lemma in_flight_0_iff: "in_flight l = 0 \<longleftrightarrow> (\<forall>j < length l. l ! j = TaskDone)"
proof -
  have "in_flight l = 0 \<longleftrightarrow> (\<forall>t \<in> set l. t = TaskDone)"
    by (simp add: in_flight_def filter_empty_conv)
  also have "\<dots> \<longleftrightarrow> (\<forall>j < length l. l ! j = TaskDone)"
    by (simp add: all_set_conv_all_nth)
  finally show ?thesis .
qed

lemma zone_changed_idle:
  assumes "sched_inv (c, l)" and "in_flight l = 0"
  shows "async_zone_changed (c, l) = (c\<lparr>pending_sync := Some (length l)\<rparr>, l @ [TaskPending])"
proof -
  have "case pending_sync c of None \<Rightarrow> True | Some i \<Rightarrow> task_done l i"
    using assms by (auto simp: sched_inv_def in_flight_0_iff task_done_def split: option.splits)
  then show ?thesis
    by (auto simp: async_zone_changed_def async_create_task_def split: option.splits)
qed

lemma sched_inv_zone_changed: "sched_inv cl \<Longrightarrow> sched_inv (async_zone_changed cl)"
proof -
  assume inv: "sched_inv cl"
  obtain c l where cl: "cl = (c, l)" by (cases cl)
  show ?thesis
  proof (cases "case pending_sync c of None \<Rightarrow> False | Some i \<Rightarrow> \<not> task_done l i")
    case True
    then show ?thesis using inv cl by (simp add: async_zone_changed_def)
  next
    case False
    then have eq: "async_zone_changed cl = (c\<lparr>pending_sync := Some (length l)\<rparr>, l @ [TaskPending])"
      using cl by (simp add: async_zone_changed_def async_create_task_def)
    have "l ! j = TaskDone" if "j < length l" for j
      using inv False cl that
      by (cases "pending_sync c") (auto simp: sched_inv_def task_done_def)
    then show ?thesis
      unfolding eq by (auto simp: sched_inv_def nth_append)
  qed
qed

lemma sched_inv_step: "sched_inv cl \<Longrightarrow> sched_inv (loop_step cl ev)"
proof (cases ev)
  case Notify
  assume "sched_inv cl"
  then show ?thesis using Notify by (simp add: sched_inv_zone_changed)
next
  case (TaskStarts i)
  assume inv: "sched_inv cl"
  obtain c l where cl: "cl = (c, l)" by (cases cl)
  show ?thesis using inv TaskStarts cl
    by (auto simp: sched_inv_def nth_list_update)
next
  case (TaskFinishes i)
  assume inv: "sched_inv cl"
  obtain c l where cl: "cl = (c, l)" by (cases cl)
  show ?thesis using inv TaskFinishes cl
    by (auto simp: sched_inv_def nth_list_update)
qed

lemma sched_inv_run: "sched_inv cl \<Longrightarrow> sched_inv (loop_run cl evs)"
  unfolding loop_run_def
  by (induction evs arbitrary: cl) (simp_all add: sched_inv_step)

lemma sched_inv_init: "sched_inv (coordinator_init, [])"
  by (simp add: sched_inv_def coordinator_init_def)

lemma filter_all_but_one:
  assumes "\<forall>j < length l. j \<noteq> i \<longrightarrow> \<not> P (l ! j)"
  shows "length (filter P l) \<le> 1"
  using assms
proof (induction l arbitrary: i)
  case Nil
  then show ?case by simp
next
  case (Cons x xs)
  show ?case
  proof (cases i)
    case 0
    have "\<not> P y" if "y \<in> set xs" for y
    proof -
      from that obtain k where k: "k < length xs" "xs ! k = y" by (auto simp: in_set_conv_nth)
      have "Suc k < length (x # xs) \<and> Suc k \<noteq> i" using k 0 by simp
      then have "\<not> P ((x # xs) ! Suc k)" using Cons.prems by blast
      then show ?thesis using k by simp
    qed
    then have "filter P xs = []" by (simp add: filter_empty_conv)
    then show ?thesis by simp
  next
    case (Suc k)
    have "0 < length (x # xs) \<and> 0 \<noteq> i" using Suc by simp
    then have "\<not> P ((x # xs) ! 0)" using Cons.prems by blast
    then have nx: "\<not> P x" by simp
    have "\<not> P (xs ! j)" if "j < length xs" "j \<noteq> k" for j
    proof -
      have "Suc j < length (x # xs) \<and> Suc j \<noteq> i" using that Suc by simp
      then have "\<not> P ((x # xs) ! Suc j)" using Cons.prems by blast
      then show ?thesis by simp
    qed
    then have "length (filter P xs) \<le> 1" using Cons.IH [of k] by blast
    then show ?thesis using nx by simp
  qed
qed

lemma sched_inv_in_flight: "sched_inv cl \<Longrightarrow> in_flight (snd cl) \<le> 1"
proof -
  assume inv: "sched_inv cl"
  obtain i where "\<forall>j < length (snd cl). j \<noteq> i \<longrightarrow> \<not> (snd cl ! j \<noteq> TaskDone)"
  proof (cases "pending_sync (fst cl)")
    case None
    then have "\<forall>j < length (snd cl). j \<noteq> 0 \<longrightarrow> \<not> (snd cl ! j \<noteq> TaskDone)"
      using inv by (simp add: sched_inv_def)
    then show ?thesis using that by blast
  next
    case (Some k)
    then have "\<forall>j < length (snd cl). j \<noteq> k \<longrightarrow> \<not> (snd cl ! j \<noteq> TaskDone)"
      using inv by (simp add: sched_inv_def)
    then show ?thesis using that by blast
  qed
  then show ?thesis unfolding in_flight_def by (rule filter_all_but_one)
qed

lemma funpow_fixed: "f x = x \<Longrightarrow> (f ^^ n) x = x"
  by (induction n) simp_all

lemma notify_burst_idle:
  assumes "sched_inv (c, l)" and "in_flight l = 0"
  shows "(async_zone_changed ^^ Suc n) (c, l)
           = (c\<lparr>pending_sync := Some (length l)\<rparr>, l @ [TaskPending])"
proof -
  have first: "async_zone_changed (c, l) = (c\<lparr>pending_sync := Some (length l)\<rparr>, l @ [TaskPending])"
    using assms by (rule zone_changed_idle)
  have fixed: "async_zone_changed (c\<lparr>pending_sync := Some (length l)\<rparr>, l @ [TaskPending])
                 = (c\<lparr>pending_sync := Some (length l)\<rparr>, l @ [TaskPending])"
    by (rule zone_changed_in_flight [of _ "length l"]) simp_all
  have "(async_zone_changed ^^ Suc n) (c, l) = (async_zone_changed ^^ n) (async_zone_changed (c, l))"
    by (simp add: funpow_swap1)
  then show ?thesis
    using first funpow_fixed [of async_zone_changed
        "(c\<lparr>pending_sync := Some (length l)\<rparr>, l @ [TaskPending])" n, OF fixed]
    by simp
qed

text \<open>
  C6. In every state reached from the initial coordinator by notifications, task
  starts and task completions, at most one sync task is pending or running. While
  the coordinator's task is pending or running, any number of notifications changes
  nothing: no task is created. From a reached state with no task in flight, one or
  more notifications in a row create exactly one task, and running it to completion
  leaves exactly one more finished pass.
\<close>

theorem debounce_single_pass:
  "in_flight (snd (loop_run (coordinator_init, []) evs)) \<le> 1
   \<and> (pending_sync c = Some i \<and> i < length l \<and> l ! i \<noteq> TaskDone
        \<longrightarrow> (async_zone_changed ^^ N) (c, l) = (c, l))
   \<and> (loop_run (coordinator_init, []) evs = (c0, l0) \<and> in_flight l0 = 0 \<and> 1 \<le> N
        \<longrightarrow> (async_zone_changed ^^ N) (c0, l0)
              = (c0\<lparr>pending_sync := Some (length l0)\<rparr>, l0 @ [TaskPending])
            \<and> loop_run ((async_zone_changed ^^ N) (c0, l0))
                [TaskStarts (length l0), TaskFinishes (length l0)]
              = (c0\<lparr>pending_sync := Some (length l0)\<rparr>, l0 @ [TaskDone]))"
proof (intro conjI impI)
  show "in_flight (snd (loop_run (coordinator_init, []) evs)) \<le> 1"
    by (rule sched_inv_in_flight [OF sched_inv_run [OF sched_inv_init]])
next
  assume "pending_sync c = Some i \<and> i < length l \<and> l ! i \<noteq> TaskDone"
  then have "async_zone_changed (c, l) = (c, l)"
    by (simp add: zone_changed_in_flight)
  then show "(async_zone_changed ^^ N) (c, l) = (c, l)" by (rule funpow_fixed)
next
  assume a: "loop_run (coordinator_init, []) evs = (c0, l0) \<and> in_flight l0 = 0 \<and> 1 \<le> N"
  then have inv: "sched_inv (c0, l0)"
    using sched_inv_run [OF sched_inv_init, of evs] by simp
  obtain n where N: "N = Suc n" using a by (cases N) auto
  show burst: "(async_zone_changed ^^ N) (c0, l0)
              = (c0\<lparr>pending_sync := Some (length l0)\<rparr>, l0 @ [TaskPending])"
    unfolding N using inv a by (simp only: notify_burst_idle)
  show "loop_run ((async_zone_changed ^^ N) (c0, l0))
                [TaskStarts (length l0), TaskFinishes (length l0)]
              = (c0\<lparr>pending_sync := Some (length l0)\<rparr>, l0 @ [TaskDone])"
    unfolding burst by (simp add: loop_run_def)
qed

theorem debounce_single_pass_witness:
  "loop_run (coordinator_init, []) [Notify, Notify, TaskStarts 0, Notify, TaskFinishes 0]
     = (coordinator_init\<lparr>pending_sync := Some 0\<rparr>, [TaskDone])
   \<and> in_flight [TaskDone] = 0 \<and> (1::nat) \<le> 3
   \<and> (async_zone_changed ^^ 3) (coordinator_init\<lparr>pending_sync := Some 0\<rparr>, [TaskDone])
       = (coordinator_init\<lparr>pending_sync := Some 1\<rparr>, [TaskDone, TaskPending])
   \<and> pending_sync (coordinator_init\<lparr>pending_sync := Some 1\<rparr>) = Some 1
   \<and> (1::nat) < length [TaskDone, TaskPending] \<and> [TaskDone, TaskPending] ! 1 \<noteq> TaskDone
   \<and> (async_zone_changed ^^ 3) (coordinator_init\<lparr>pending_sync := Some 1\<rparr>, [TaskDone, TaskPending])
       = (coordinator_init\<lparr>pending_sync := Some 1\<rparr>, [TaskDone, TaskPending])"
  using debounce_single_pass [of "[Notify, Notify, TaskStarts 0, Notify, TaskFinishes 0]"
      "coordinator_init\<lparr>pending_sync := Some 1\<rparr>" 1 "[TaskDone, TaskPending]" 3
      "coordinator_init\<lparr>pending_sync := Some 0\<rparr>" "[TaskDone]"]
  by (simp add: loop_run_def async_zone_changed_def async_create_task_def task_done_def
      in_flight_def coordinator_init_def numeral_3_eq_3)

section \<open>Zone invariants\<close>

lemma control_vent_cases:
  "fst (async_control_vent e z) = z
   \<or> (should_vent_be_open z \<noteq> vent_open z \<and> is_min_cycle_respected (utcnow_guard e) z
      \<and> switch_ok e
      \<and> fst (async_control_vent e z)
          = z\<lparr>vent_open := should_vent_be_open z, last_vent_toggle := Some (utcnow_set e)\<rparr>)"
  by (simp add: async_control_vent_def async_set_vent_def Let_def)

lemma control_vent_frame:
  "hvac_mode (fst (async_control_vent e z)) = hvac_mode z
   \<and> target_temp (fst (async_control_vent e z)) = target_temp z
   \<and> same_config z (fst (async_control_vent e z))"
  using control_vent_cases [of e z] by (auto simp: same_config_def)

lemma set_hvac_mode_frame:
  "target_temp (fst (async_set_hvac_mode e m z)) = target_temp z
   \<and> same_config z (fst (async_set_hvac_mode e m z))
   \<and> hvac_mode (fst (async_set_hvac_mode e m z))
       = (if m \<in> set (attr_hvac_modes z) then m else hvac_mode z)"
  using control_vent_frame [of e "z\<lparr>hvac_mode := m\<rparr>"]
  by (simp add: async_set_hvac_mode_def Let_def same_config_def)

lemma set_temperature_frame:
  "target_temp (fst (async_set_temperature e1 e2 t m z)) = (case t of None \<Rightarrow> target_temp z | Some v \<Rightarrow> v)
   \<and> same_config z (fst (async_set_temperature e1 e2 t m z))
   \<and> hvac_mode (fst (async_set_temperature e1 e2 t m z))
       = (case m of None \<Rightarrow> hvac_mode z
          | Some k \<Rightarrow> if k \<in> set (attr_hvac_modes z) then k else hvac_mode z)"
proof -
  define z1 where "z1 = (case t of None \<Rightarrow> z | Some v \<Rightarrow> fst (async_control_vent e1 (z\<lparr>target_temp := v\<rparr>)))"
  have z1: "target_temp z1 = (case t of None \<Rightarrow> target_temp z | Some v \<Rightarrow> v)
      \<and> same_config z z1 \<and> hvac_mode z1 = hvac_mode z"
  proof (cases t)
    case None
    then show ?thesis by (simp add: z1_def same_config_def)
  next
    case (Some v)
    then show ?thesis
      using control_vent_frame [of e1 "z\<lparr>target_temp := v\<rparr>"]
      by (simp add: z1_def same_config_def)
  qed
  have res: "fst (async_set_temperature e1 e2 t m z)
               = (case m of None \<Rightarrow> z1 | Some k \<Rightarrow> fst (async_set_hvac_mode e2 k z1))"
    by (simp add: async_set_temperature_def Let_def z1_def split: option.splits)
  show ?thesis
  proof (cases m)
    case None
    then show ?thesis using z1 res by simp
  next
    case (Some k)
    then show ?thesis
      using z1 res set_hvac_mode_frame [of e2 k z1] by (simp add: same_config_def)
  qed
qed

lemma turn_on_frame:
  "target_temp (zone_step z (TurnOn e)) = target_temp z
   \<and> same_config z (zone_step z (TurnOn e))
   \<and> (hvac_mode (zone_step z (TurnOn e)) = hvac_mode z
      \<or> hvac_mode (zone_step z (TurnOn e)) \<in> set (attr_hvac_modes z))"
proof -
  have "zone_step z (TurnOn e) = z \<or> (\<exists>m. zone_step z (TurnOn e) = fst (async_set_hvac_mode e m z))"
  proof (cases "async_turn_on e z")
    case (Inl err)
    then show ?thesis by simp
  next
    case (Inr r)
    then have "\<exists>m. r = async_set_hvac_mode e m z"
      by (auto simp: async_turn_on_def split: if_splits sum.splits)
    then show ?thesis using Inr by auto
  qed
  then show ?thesis
  proof
    assume "zone_step z (TurnOn e) = z"
    then show ?thesis by (simp add: same_config_def)
  next
    assume "\<exists>m. zone_step z (TurnOn e) = fst (async_set_hvac_mode e m z)"
    then obtain m where "zone_step z (TurnOn e) = fst (async_set_hvac_mode e m z)" ..
    then show ?thesis using set_hvac_mode_frame [of e m z] by simp
  qed
qed

lemma update_current_temp_frame:
  "hvac_mode (fst (update_current_temp s z)) = hvac_mode z
   \<and> target_temp (fst (update_current_temp s z)) = target_temp z
   \<and> vent_open (fst (update_current_temp s z)) = vent_open z
   \<and> same_config z (fst (update_current_temp s z))"
  by (cases s) (simp_all add: same_config_def)

lemma sensor_changed_frame:
  "hvac_mode (fst (async_sensor_changed e s z)) = hvac_mode z
   \<and> target_temp (fst (async_sensor_changed e s z)) = target_temp z
   \<and> same_config z (fst (async_sensor_changed e s z))"
proof (cases s)
  case (StateValue v)
  then show ?thesis
    using control_vent_frame [of e "z\<lparr>current_temp := Some v\<rparr>"]
    by (simp add: Let_def same_config_def)
qed (simp_all add: same_config_def)

lemma startup_check_frame:
  "hvac_mode (fst (async_startup_check e s z)) = hvac_mode z
   \<and> target_temp (fst (async_startup_check e s z)) = target_temp z
   \<and> same_config z (fst (async_startup_check e s z))"
  using control_vent_frame [of e "fst (update_current_temp s z)"]
    update_current_temp_frame [of s z]
  by (simp add: async_startup_check_def Let_def same_config_def)

lemma restore_state_frame:
  "same_config z (restore_state lst z)
   \<and> hvac_mode (restore_state lst z)
       = (case lst of None \<Rightarrow> hvac_mode z
          | Some s \<Rightarrow> (case HVACMode_of_value (ls_state s) of
                         None \<Rightarrow> hvac_mode z | Some m \<Rightarrow> m))
   \<and> target_temp (restore_state lst z)
       = (case lst of None \<Rightarrow> target_temp z
          | Some s \<Rightarrow> (case ls_temperature s of None \<Rightarrow> target_temp z | Some t \<Rightarrow> t))"
  by (simp add: restore_state_def Let_def same_config_def split: option.splits)

lemma added_to_hass_frame:
  "same_config z (fst (async_added_to_hass lst s z))
   \<and> hvac_mode (fst (async_added_to_hass lst s z)) = hvac_mode (restore_state lst z)
   \<and> target_temp (fst (async_added_to_hass lst s z)) = target_temp (restore_state lst z)"
  using update_current_temp_frame [of s "restore_state lst z"] restore_state_frame [of z lst]
  by (simp add: async_added_to_hass_def Let_def same_config_def)

lemma zone_step_same_config: "same_config z (zone_step z op)"
proof (cases op)
  case (SetHvacMode e m)
  then show ?thesis using set_hvac_mode_frame [of e m z] by simp
next
  case (SetTemperature e1 e2 t m)
  then show ?thesis using set_temperature_frame [of e1 e2 t m z] by simp
next
  case (SetFanMode f)
  then show ?thesis by (simp add: async_set_fan_mode_def same_config_def)
next
  case (TurnOn e)
  then show ?thesis using turn_on_frame [of z e] by simp
next
  case (TurnOff e)
  then show ?thesis using set_hvac_mode_frame [of e OFF z] by (simp add: async_turn_off_def)
next
  case (SensorChanged e s)
  then show ?thesis using sensor_changed_frame [of e s z] by simp
next
  case (StartupCheck e s)
  then show ?thesis using startup_check_frame [of e s z] by simp
next
  case (AddedToHass lst s)
  then show ?thesis using added_to_hass_frame [of z lst s] by simp
qed

lemma zone_step_inv:
  assumes "zone_inv z" and "op_within_config z op"
  shows "zone_inv (zone_step z op)"
proof -
  have cfg: "same_config z (zone_step z op)" by (rule zone_step_same_config)
  have "hvac_mode (zone_step z op) \<in> set (attr_hvac_modes z)
        \<and> attr_min_temp z \<le> target_temp (zone_step z op)
        \<and> target_temp (zone_step z op) \<le> attr_max_temp z"
  proof (cases op)
    case (SetHvacMode e m)
    then show ?thesis using assms set_hvac_mode_frame [of e m z] by (simp add: zone_inv_def)
  next
    case (SetTemperature e1 e2 t m)
    then show ?thesis using assms set_temperature_frame [of e1 e2 t m z]
      by (cases t; cases m) (simp_all add: zone_inv_def)
  next
    case (SetFanMode f)
    then show ?thesis using assms by (simp add: async_set_fan_mode_def zone_inv_def)
  next
    case (TurnOn e)
    then show ?thesis using assms turn_on_frame [of z e] by (auto simp: zone_inv_def)
  next
    case (TurnOff e)
    then show ?thesis using assms set_hvac_mode_frame [of e OFF z]
      by (simp add: async_turn_off_def zone_inv_def)
  next
    case (SensorChanged e s)
    then show ?thesis using assms sensor_changed_frame [of e s z] by (simp add: zone_inv_def)
  next
    case (StartupCheck e s)
    then show ?thesis using assms startup_check_frame [of e s z] by (simp add: zone_inv_def)
  next
    case (AddedToHass lst s)
    then show ?thesis using assms added_to_hass_frame [of z lst s] restore_state_frame [of z lst]
      by (cases lst) (auto simp: zone_inv_def split: option.splits)
  qed
  then show ?thesis using cfg by (simp add: zone_inv_def same_config_def)
qed

lemma op_within_config_cong:
  "same_config z z' \<Longrightarrow> op_within_config z' op = op_within_config z op"
  by (cases "(z, op)" rule: op_within_config.cases)
    (auto simp: same_config_def split: option.splits)

lemma zone_run_inv:
  assumes "zone_inv z" and "\<forall>op \<in> set ops. op_within_config z op"
  shows "zone_inv (zone_run z ops)"
  using assms unfolding zone_run_def
proof (induction ops arbitrary: z)
  case Nil
  then show ?case by simp
next
  case (Cons op ops)
  have step: "zone_inv (zone_step z op)"
    using Cons.prems by (simp add: zone_step_inv)
  have "\<forall>op' \<in> set ops. op_within_config (zone_step z op) op'"
    using Cons.prems op_within_config_cong [OF zone_step_same_config [of z op]] by simp
  then show ?case using Cons.IH [OF step] by simp
qed

lemma zone_init_inv:
  "OFF \<in> set modes \<Longrightarrow> lo \<le> hi \<Longrightarrow> zone_inv (zone_init name modes fans lo hi tol mcd)"
  by (simp add: zone_inv_def zone_init_def)

text \<open>
  C7, as the code has it. A zone built with Off among its modes and a lower bound not
  above the upper bound keeps its mode within the configured modes and its target
  temperature within the bounds through every sequence of operations whose requested
  temperatures lie within the bounds and whose restored states hold a configured mode
  and a temperature within the bounds. Nothing is clamped or validated:
  \<open>async_set_temperature\<close> stores the requested temperature as it is, and
  \<open>async_added_to_hass\<close> restores any persisted mode that is the value of an
  \<open>HVACMode\<close> member and any persisted temperature.
\<close>

theorem zone_invariant_amended:
  assumes "OFF \<in> set modes" and "lo \<le> hi"
    and "\<forall>op \<in> set ops. op_within_config (zone_init name modes fans lo hi tol mcd) op"
  shows "zone_inv (zone_run (zone_init name modes fans lo hi tol mcd) ops)
         \<and> target_temp (fst (async_set_temperature e1 e2 (Some t) m z)) = t
         \<and> (HVACMode_of_value (ls_state s) = Some k
              \<longrightarrow> hvac_mode (fst (async_added_to_hass (Some s) r z)) = k)
         \<and> (ls_temperature s = Some u
              \<longrightarrow> target_temp (fst (async_added_to_hass (Some s) r z)) = u)"
proof -
  have "zone_inv (zone_run (zone_init name modes fans lo hi tol mcd) ops)"
    using assms by (simp add: zone_run_inv zone_init_inv)
  moreover have "target_temp (fst (async_set_temperature e1 e2 (Some t) m z)) = t"
    using set_temperature_frame [of e1 e2 "Some t" m z] by simp
  moreover have "HVACMode_of_value (ls_state s) = Some k
              \<longrightarrow> hvac_mode (fst (async_added_to_hass (Some s) r z)) = k"
    using added_to_hass_frame [of z "Some s" r] restore_state_frame [of z "Some s"] by simp
  moreover have "ls_temperature s = Some u
              \<longrightarrow> target_temp (fst (async_added_to_hass (Some s) r z)) = u"
    using added_to_hass_frame [of z "Some s" r] restore_state_frame [of z "Some s"] by simp
  ultimately show ?thesis by simp
qed

theorem zone_invariant_amended_witness:
  "OFF \<in> set [OFF, HEAT, COOL] \<and> (16::real) \<le> 30
   \<and> list_all
        (op_within_config (zone_init ''living'' [OFF, HEAT, COOL] [] 16 30 0.3 (Some 300000000)))
        in_bounds_ops
   \<and> zone_inv (zone_run (zone_init ''living'' [OFF, HEAT, COOL] [] 16 30 0.3 (Some 300000000))
        in_bounds_ops)
   \<and> target_temp (fst (async_set_temperature (env_at 0 True) (env_at 0 True) (Some 100) None
        zone_living)) = 100
   \<and> HVACMode_of_value (ls_state persisted_auto) = Some AUTO
   \<and> hvac_mode (fst (async_added_to_hass (Some persisted_auto) NoState zone_living)) = AUTO
   \<and> ls_temperature persisted_auto = Some 5
   \<and> target_temp (fst (async_added_to_hass (Some persisted_auto) NoState zone_living)) = 5"
  using zone_invariant_amended [of "[OFF, HEAT, COOL]" 16 30 in_bounds_ops "''living''" "[]"
      "0.3" "Some 300000000" "env_at 0 True" "env_at 0 True" 100 None zone_living
      persisted_auto AUTO NoState 5]
  by (simp add: in_bounds_ops_def persisted_heat_def persisted_auto_def zone_init_def
      HVACMode_of_value_def all_HVACModes_def)

text \<open>
  C7 as stated fails: after \<open>async_set_temperature\<close> with 100 the target temperature
  of a zone with bounds 16 and 30 is 100, and restoring a persisted state with mode
  \<open>auto\<close> and temperature 5 leaves a zone configured for Off, Heat and Cool in mode
  Auto at 5 degrees.
\<close>

theorem zone_invariant_counterexample:
  "target_temp (zone_run zone_living
       [SetTemperature (env_at 0 True) (env_at 0 True) (Some 100) None]) = 100
   \<and> attr_max_temp (zone_run zone_living
       [SetTemperature (env_at 0 True) (env_at 0 True) (Some 100) None]) = 30
   \<and> \<not> zone_inv (zone_run zone_living
       [SetTemperature (env_at 0 True) (env_at 0 True) (Some 100) None])
   \<and> hvac_mode (zone_run zone_living [AddedToHass (Some persisted_auto) NoState]) = AUTO
   \<and> target_temp (zone_run zone_living [AddedToHass (Some persisted_auto) NoState]) = 5
   \<and> attr_hvac_modes (zone_run zone_living [AddedToHass (Some persisted_auto) NoState])
       = [OFF, HEAT, COOL]
   \<and> attr_min_temp (zone_run zone_living [AddedToHass (Some persisted_auto) NoState]) = 16
   \<and> \<not> zone_inv (zone_run zone_living [AddedToHass (Some persisted_auto) NoState])"
  by (simp add: zone_run_def zone_living_def zone_init_def env_at_def zone_inv_def
      async_set_temperature_def async_control_vent_def should_vent_be_open_def
      async_added_to_hass_def restore_state_def persisted_auto_def
      HVACMode_of_value_def all_HVACModes_def)









section \<open>Turn-on\<close>

text \<open>
  C9. Set the mode to Heat, turn off, turn on: the zone had Heat as its last non-Off
  mode, and turn-on puts it in Cool. Turn-on looks at the current mode only, and
  falls back to the default whenever that is Off.
\<close>

theorem turn_on_after_turn_off_forgets_mode:
  "hvac_mode (zone_run zone_living [SetHvacMode (env_at 0 True) HEAT]) = HEAT
   \<and> hvac_mode (zone_run zone_living [SetHvacMode (env_at 0 True) HEAT, TurnOff (env_at 1 True)]) = OFF
   \<and> hvac_mode (zone_run zone_living
        [SetHvacMode (env_at 0 True) HEAT, TurnOff (env_at 1 True), TurnOn (env_at 2 True)]) = COOL"
  by (simp add: zone_run_def zone_living_def zone_init_def env_at_def
      async_set_hvac_mode_def async_control_vent_def should_vent_be_open_def
      async_turn_off_def async_turn_on_def)

text \<open>
  C10. In a zone that is Off and has no Cool among its configured modes, turn-on
  reads entry 1 of the configured list: with two entries or more it sets that mode,
  with fewer it raises \<open>IndexError\<close>, and so it does when the list is just Off.
\<close>

theorem turn_on_reads_index_1:
  assumes "hvac_mode z = OFF" and "COOL \<notin> set (attr_hvac_modes z)"
  shows "(2 \<le> length (attr_hvac_modes z) \<longrightarrow>
            async_turn_on e z = Inr (async_set_hvac_mode e (attr_hvac_modes z ! 1) z))
         \<and> (length (attr_hvac_modes z) < 2 \<longrightarrow> async_turn_on e z = Inl IndexError)
         \<and> (attr_hvac_modes z = [OFF] \<longrightarrow> async_turn_on e z = Inl IndexError)"
  using assms by (auto simp add: async_turn_on_def py_index_def)

theorem turn_on_reads_index_1_witness:
  "hvac_mode zone_off_only = OFF \<and> COOL \<notin> set (attr_hvac_modes zone_off_only)
   \<and> attr_hvac_modes zone_off_only = [OFF]
   \<and> async_turn_on (env_at 0 True) zone_off_only = Inl IndexError
   \<and> hvac_mode zone_heat_only = OFF \<and> COOL \<notin> set (attr_hvac_modes zone_heat_only)
   \<and> 2 \<le> length (attr_hvac_modes zone_heat_only)
   \<and> async_turn_on (env_at 0 True) zone_heat_only
       = Inr (async_set_hvac_mode (env_at 0 True) HEAT zone_heat_only)"
  using turn_on_reads_index_1 [of zone_off_only "env_at 0 True"]
    turn_on_reads_index_1 [of zone_heat_only "env_at 0 True"]
  by (simp add: zone_off_only_def zone_heat_only_def zone_init_def)

end
